theory Spec2Isabelle
  imports Main "HOL-Library.Word"
begin

section \<open>The load generator of AVX2Operations.cpp\<close>

text \<open>
  The translation unit exports one function:
  \<^verbatim>\<open>
  extern "C" __declspec(dllexport) void PerformHeavyLoad()
  {
      __m256i vec = _mm256_set1_epi32(1);
      for (int i = 0; i < 1000000000; i++)
      {
          vec = _mm256_add_epi32(vec, _mm256_set1_epi32(1));
      }
  }
  \<close>
  The names below are the source's, without the leading underscore of the intrinsics
  (an Isabelle name starts with a letter).
\<close>

subsection \<open>The vector register\<close>

text \<open>
  Modelled from the spec: the type \<^verbatim>\<open>__m256i\<close> is declared in the compiler's
  \<^verbatim>\<open><immintrin.h>\<close>, not in the repository. The spec calls it "an 8-lane 32-bit
  integer vector"; the two intrinsics of the source view its 256 bits as eight packed
  32-bit integers, lane 0 the lowest.
\<close>

datatype m256i = M256i (e0: "32 word") (e1: "32 word") (e2: "32 word") (e3: "32 word")
                       (e4: "32 word") (e5: "32 word") (e6: "32 word") (e7: "32 word")

definition lanes :: "m256i \<Rightarrow> 32 word list" where
  "lanes v = [e0 v, e1 v, e2 v, e3 v, e4 v, e5 v, e6 v, e7 v]"

text \<open>
  Modelled from the spec: \<^verbatim>\<open>_mm256_set1_epi32(a)\<close> is declared in
  \<^verbatim>\<open><immintrin.h>\<close>. The spec: "initialize an 8-lane 32-bit integer vector with all
  lanes set to" \<open>a\<close>. The argument is a C \<^verbatim>\<open>int\<close>, 32 bits wide.
\<close>

definition mm256_set1_epi32 :: "32 word \<Rightarrow> m256i" where
  "mm256_set1_epi32 a = M256i a a a a a a a a"

text \<open>
  Modelled from the spec: \<^verbatim>\<open>_mm256_add_epi32(a, b)\<close> is declared in
  \<^verbatim>\<open><immintrin.h>\<close>. The spec: the addition is "lane-wise, with silent wraparound on
  overflow - no saturation, no error on overflow". Addition on \<open>32 word\<close> is addition
  modulo \<open>2 ^ 32\<close>.
\<close>

definition mm256_add_epi32 :: "m256i \<Rightarrow> m256i \<Rightarrow> m256i" where
  "mm256_add_epi32 a b =
     M256i (e0 a + e0 b) (e1 a + e1 b) (e2 a + e2 b) (e3 a + e3 b)
           (e4 a + e4 b) (e5 a + e5 b) (e6 a + e6 b) (e7 a + e7 b)"

subsection \<open>The state of an execution\<close>

text \<open>
  The function has two locals: the accumulator \<open>vec\<close> and the loop counter \<open>i\<close>, a C
  \<^verbatim>\<open>int\<close> (32 bits, read as two's complement by \<open>sint\<close>). Everything else a program
  can observe (memory, files, globals) is the field \<open>world\<close>, of any type. The field
  \<open>adds\<close> is not a variable of the source: it is the instrumentation counter of the
  spec's section 8 ("counter incremented alongside the add"), and it counts the calls of
  \<^verbatim>\<open>_mm256_add_epi32\<close>.
\<close>

record 'w exec_state =
  i :: "32 word"
  vec :: m256i
  adds :: nat
  world :: 'w

text \<open>
  Overflow of a signed \<^verbatim>\<open>int\<close> is undefined behaviour in C++, so \<^verbatim>\<open>i++\<close> at
  \<^verbatim>\<open>INT_MAX\<close> is the one step of the source that could go wrong. It is an error
  value of the model.
\<close>

datatype error = Signed_overflow

definition INT_MAX :: "32 word" where
  "INT_MAX = 2147483647"

text \<open>The loop condition \<^verbatim>\<open>i < 1000000000\<close>, a signed comparison.\<close>

definition loop_cond :: "'w exec_state \<Rightarrow> bool" where
  "loop_cond s \<longleftrightarrow> i s <s 1000000000"

text \<open>The loop body \<^verbatim>\<open>vec = _mm256_add_epi32(vec, _mm256_set1_epi32(1));\<close>.\<close>

definition loop_body :: "'w exec_state \<Rightarrow> 'w exec_state" where
  "loop_body s =
     s\<lparr>vec := mm256_add_epi32 (vec s) (mm256_set1_epi32 1), adds := Suc (adds s)\<rparr>"

text \<open>The increment \<^verbatim>\<open>i++\<close>.\<close>

definition loop_incr :: "'w exec_state \<Rightarrow> error + 'w exec_state" where
  "loop_incr s = (if i s = INT_MAX then Inl Signed_overflow else Inr (s\<lparr>i := i s + 1\<rparr>))"

text \<open>
  The loop \<^verbatim>\<open>for (...; i < 1000000000; i++) { ... }\<close> from a state in which \<open>i\<close> is
  initialised: test, body, increment, again. It returns the state at the loop's exit.
\<close>

function for_loop :: "'w exec_state \<Rightarrow> error + 'w exec_state" where
  "for_loop s =
     (if loop_cond s then
        (case loop_incr (loop_body s) of
           Inl err \<Rightarrow> Inl err
         | Inr s' \<Rightarrow> for_loop s')
      else Inr s)"
  by pat_completeness auto
termination
proof (relation "measure (\<lambda>s. nat (1000000000 - sint (i s)))")
  show "wf (measure (\<lambda>s :: 'w exec_state. nat (1000000000 - sint (i s))))"
    by simp
next
  fix s s' :: "'w exec_state"
  assume c: "loop_cond s" and n: "loop_incr (loop_body s) = Inr s'"
  from c have lt: "sint (i s) < 1000000000"
    by (simp add: loop_cond_def word_sless_alt)
  from n have s': "i s' = i s + 1"
    by (auto simp: loop_incr_def loop_body_def split: if_splits)
  have "sint (i s + 1) = signed_take_bit 31 (sint (i s) + 1)"
    by (simp add: sint_word_ariths)
  also have "\<dots> = sint (i s) + 1"
    using lt sint_ge [of "i s"] by (simp add: signed_take_bit_int_eq_self)
  finally have "sint (i s') = sint (i s) + 1"
    using s' by simp
  with lt show "(s', s) \<in> measure (\<lambda>s. nat (1000000000 - sint (i s)))"
    by simp
qed

declare for_loop.simps [simp del]

text \<open>
  The state at the loop's entry: \<^verbatim>\<open>__m256i vec = _mm256_set1_epi32(1);\<close> and
  \<^verbatim>\<open>int i = 0\<close> have run, no addition has been counted.
\<close>

definition loop_entry :: "'w \<Rightarrow> 'w exec_state" where
  "loop_entry w = \<lparr>i = 0, vec = mm256_set1_epi32 1, adds = 0, world = w\<rparr>"

text \<open>
  The body of \<^verbatim>\<open>PerformHeavyLoad\<close> up to its closing brace, with the locals still in
  scope.
\<close>

definition PerformHeavyLoad_locals :: "'w \<Rightarrow> error + 'w exec_state" where
  "PerformHeavyLoad_locals w = for_loop (loop_entry w)"

text \<open>
  The return of a \<^verbatim>\<open>void\<close> function: the locals go out of scope, the caller gets
  the unit value and the world.
\<close>

definition function_exit :: "error + 'w exec_state \<Rightarrow> error + unit \<times> 'w" where
  "function_exit r = (case r of Inl err \<Rightarrow> Inl err | Inr s \<Rightarrow> Inr ((), world s))"

definition PerformHeavyLoad :: "'w \<Rightarrow> error + unit \<times> 'w" where
  "PerformHeavyLoad w = function_exit (PerformHeavyLoad_locals w)"

text \<open>
  The state after exactly \<open>k\<close> iterations from \<open>s\<close>: \<open>None\<close> when the loop
  leaves before the \<open>k\<close>-th iteration, an error when an iteration goes wrong.
\<close>

primrec iterations :: "nat \<Rightarrow> 'w exec_state \<Rightarrow> (error + 'w exec_state) option" where
  "iterations 0 s = Some (Inr s)"
| "iterations (Suc k) s =
     (if loop_cond s then
        (case loop_incr (loop_body s) of
           Inl err \<Rightarrow> Some (Inl err)
         | Inr s' \<Rightarrow> iterations k s')
      else None)"

section \<open>Auxiliary facts\<close>

subsection \<open>One iteration\<close>

lemma sint_incr:
  fixes x :: "32 word"
  assumes "sint x < 1000000000"
  shows "sint (x + 1) = sint x + 1"
proof -
  have "sint (x + 1) = signed_take_bit 31 (sint x + 1)"
    by (simp add: sint_word_ariths)
  also have "\<dots> = sint x + 1"
    using assms sint_ge [of x] by (simp add: signed_take_bit_int_eq_self)
  finally show ?thesis .
qed

text \<open>While the condition holds, \<^verbatim>\<open>i++\<close> is far from \<^verbatim>\<open>INT_MAX\<close>.\<close>

lemma loop_step:
  assumes "loop_cond s"
  shows "loop_incr (loop_body s) =
    Inr (s\<lparr>i := i s + 1, vec := mm256_add_epi32 (vec s) (mm256_set1_epi32 1),
      adds := Suc (adds s)\<rparr>)"
proof -
  from assms have "sint (i s) < 1000000000"
    by (simp add: loop_cond_def word_sless_alt)
  then have "sint (i s) \<noteq> sint INT_MAX"
    by (simp add: INT_MAX_def)
  then have "i s \<noteq> INT_MAX"
    by auto
  then show ?thesis
    by (simp add: loop_incr_def loop_body_def)
qed

lemma for_loop_exit: "\<not> loop_cond s \<Longrightarrow> for_loop s = Inr s"
  by (subst for_loop.simps) simp

lemma for_loop_step:
  "loop_cond s \<Longrightarrow> loop_incr (loop_body s) = Inr s1 \<Longrightarrow> for_loop s = for_loop s1"
  by (subst for_loop.simps) simp

subsection \<open>Vectors\<close>

lemma lanes_set1: "lanes (mm256_set1_epi32 a) = replicate 8 a"
  by (simp add: lanes_def mm256_set1_epi32_def eval_nat_numeral)

lemma add_set1_set1:
  "mm256_add_epi32 (mm256_set1_epi32 a) (mm256_set1_epi32 b) = mm256_set1_epi32 (a + b)"
  by (simp add: mm256_add_epi32_def mm256_set1_epi32_def)

lemma add_set1_assoc:
  "mm256_add_epi32 (mm256_add_epi32 v (mm256_set1_epi32 a)) (mm256_set1_epi32 b) =
   mm256_add_epi32 v (mm256_set1_epi32 (a + b))"
  by (simp add: mm256_add_epi32_def mm256_set1_epi32_def add.assoc)

text \<open>Adding the all-ones vector \<open>k\<close> times adds \<open>k\<close> to every lane.\<close>

lemma funpow_add_one:
  "((\<lambda>v. mm256_add_epi32 v (mm256_set1_epi32 1)) ^^ k) v =
   mm256_add_epi32 v (mm256_set1_epi32 (of_nat k))"
proof (induction k)
  case 0
  show ?case
    by (cases v) (simp add: mm256_add_epi32_def mm256_set1_epi32_def)
next
  case (Suc k)
  then show ?case
    by (simp add: add_set1_assoc add.commute)
qed

lemma funpow_add_one_entry:
  "((\<lambda>v. mm256_add_epi32 v (mm256_set1_epi32 1)) ^^ 1000000000) (mm256_set1_epi32 1) =
   mm256_set1_epi32 1000000001"
  by (simp only: funpow_add_one add_set1_set1) simp

lemma unat_of_nat_small: "k \<le> 1000000000 \<Longrightarrow> unat (of_nat (Suc k) :: 32 word) = Suc k"
  by (simp add: unat_of_nat take_bit_nat_eq_self del: of_nat_Suc)

lemma sint_of_nat_small: "k \<le> 1000000000 \<Longrightarrow> sint (of_nat k :: 32 word) = int k"
  by (simp add: signed_of_nat signed_take_bit_int_eq_self)

subsection \<open>The state after \<open>k\<close> iterations, in closed form\<close>

text \<open>
  From a state with \<open>0 \<le> i\<close> and room for \<open>k\<close> more iterations below the bound, the
  \<open>k\<close> iterations all run: the counter and every lane have grown by \<open>k\<close>.
\<close>

lemma iterations_closed:
  "0 \<le> sint (i s) \<Longrightarrow> sint (i s) + int k \<le> 1000000000 \<Longrightarrow>
   iterations k s = Some (Inr (s\<lparr>i := i s + of_nat k,
     vec := mm256_add_epi32 (vec s) (mm256_set1_epi32 (of_nat k)), adds := adds s + k\<rparr>))"
proof (induction k arbitrary: s)
  case 0
  show ?case
    by (cases "vec s") (simp add: mm256_add_epi32_def mm256_set1_epi32_def)
next
  case (Suc k)
  let ?s1 = "s\<lparr>i := i s + 1, vec := mm256_add_epi32 (vec s) (mm256_set1_epi32 1),
    adds := Suc (adds s)\<rparr>"
  from Suc.prems have lt: "sint (i s) < 1000000000" by simp
  then have c: "loop_cond s"
    by (simp add: loop_cond_def word_sless_alt)
  have si: "sint (i ?s1) = sint (i s) + 1"
    using lt by (simp add: sint_incr)
  have "iterations k ?s1 = Some (Inr (?s1\<lparr>i := i ?s1 + of_nat k,
     vec := mm256_add_epi32 (vec ?s1) (mm256_set1_epi32 (of_nat k)), adds := adds ?s1 + k\<rparr>))"
    using Suc.prems si by (intro Suc.IH) simp_all
  then show ?case
    using c by (simp add: loop_step add_set1_assoc add.assoc)
qed

lemma iterations_entry:
  assumes "k \<le> 1000000000"
  shows "iterations k (loop_entry w) =
    Some (Inr \<lparr>i = of_nat k, vec = mm256_set1_epi32 (of_nat (Suc k)), adds = k, world = w\<rparr>)"
proof -
  have "iterations k (loop_entry w) =
    Some (Inr ((loop_entry w)\<lparr>i := i (loop_entry w) + of_nat k,
      vec := mm256_add_epi32 (vec (loop_entry w)) (mm256_set1_epi32 (of_nat k)),
      adds := adds (loop_entry w) + k\<rparr>))"
    using assms by (intro iterations_closed) (simp_all add: loop_entry_def)
  then show ?thesis
    by (simp add: loop_entry_def mm256_add_epi32_def mm256_set1_epi32_def)
qed

lemma iterations_final:
  "iterations 1000000000 (loop_entry w) =
   Some (Inr \<lparr>i = 1000000000, vec = mm256_set1_epi32 1000000001, adds = 1000000000,
     world = w\<rparr>)"
  using iterations_entry [of 1000000000 w] by simp

lemma not_loop_cond_final:
  "\<not> loop_cond \<lparr>i = 1000000000, vec = v, adds = n, world = w\<rparr>"
  by (simp add: loop_cond_def word_sless_alt)

subsection \<open>The loop and its iterations\<close>

lemma for_loop_iterations:
  "iterations k s = Some (Inr s') \<Longrightarrow> for_loop s = for_loop s'"
proof (induction k arbitrary: s)
  case 0
  then show ?case by simp
next
  case (Suc k)
  then show ?case
    by (subst for_loop.simps) (auto split: if_splits sum.splits)
qed

lemma iterations_Suc_end:
  "iterations k s = Some (Inr s') \<Longrightarrow> iterations (Suc k) s = iterations (Suc 0) s'"
proof (induction k arbitrary: s)
  case 0
  then show ?case by simp
next
  case (Suc k)
  from Suc.prems have c: "loop_cond s"
    by (simp split: if_splits)
  from Suc.prems c obtain s1 where s1: "loop_incr (loop_body s) = Inr s1"
    and k: "iterations k s1 = Some (Inr s')"
    by (auto split: sum.splits)
  from Suc.IH [OF k] have "iterations (Suc k) s1 = iterations (Suc 0) s'" .
  moreover have "iterations (Suc (Suc k)) s = iterations (Suc k) s1"
    using c s1 by (simp del: iterations.simps(2) add: iterations.simps(2) [of "Suc k" s])
  ultimately show ?case by simp
qed

lemma iterations_add:
  "iterations a s = Some (Inr s') \<Longrightarrow> iterations (a + b) s = iterations b s'"
proof (induction a arbitrary: s)
  case 0
  then show ?case by simp
next
  case (Suc a)
  from Suc.prems have c: "loop_cond s"
    by (simp split: if_splits)
  from Suc.prems c obtain s1 where s1: "loop_incr (loop_body s) = Inr s1"
    and a: "iterations a s1 = Some (Inr s')"
    by (auto split: sum.splits)
  from Suc.IH [OF a] have "iterations (a + b) s1 = iterations b s'" .
  then show ?case
    using c s1 by simp
qed

text \<open>The loop has no iteration after the 1,000,000,000th.\<close>

lemma iterations_bound:
  assumes "iterations k (loop_entry w) = Some r"
  shows "k \<le> 1000000000"
proof (rule ccontr)
  assume "\<not> k \<le> 1000000000"
  then obtain m where k: "k = 1000000000 + Suc m"
    by (metis add_Suc_right less_imp_Suc_add not_le)
  have "iterations (1000000000 + Suc m) (loop_entry w) =
    iterations (Suc m) \<lparr>i = 1000000000, vec = mm256_set1_epi32 1000000001,
      adds = 1000000000, world = w\<rparr>"
    using iterations_final by (rule iterations_add)
  also have "\<dots> = None"
    using not_loop_cond_final [of "mm256_set1_epi32 1000000001" 1000000000 w] by simp
  finally show False
    using assms k by simp
qed

lemma for_loop_entry:
  "for_loop (loop_entry w) =
   Inr \<lparr>i = 1000000000, vec = mm256_set1_epi32 1000000001, adds = 1000000000, world = w\<rparr>"
proof -
  let ?f = "\<lparr>i = 1000000000, vec = mm256_set1_epi32 1000000001, adds = 1000000000,
    world = w\<rparr>"
  have "for_loop (loop_entry w) = for_loop ?f"
    using iterations_final by (rule for_loop_iterations)
  also have "\<dots> = Inr ?f"
    using not_loop_cond_final by (rule for_loop_exit)
  finally show ?thesis .
qed

text \<open>From every state of the locals the loop leaves, after finitely many iterations.\<close>

lemma for_loop_total:
  "\<exists>n s'. iterations n s = Some (Inr s') \<and> \<not> loop_cond s' \<and> for_loop s = Inr s'"
proof (induction s rule: for_loop.induct)
  case (1 s)
  show ?case
  proof (cases "loop_cond s")
    case True
    let ?s1 = "s\<lparr>i := i s + 1, vec := mm256_add_epi32 (vec s) (mm256_set1_epi32 1),
      adds := Suc (adds s)\<rparr>"
    from True have st: "loop_incr (loop_body s) = Inr ?s1"
      by (rule loop_step)
    from "1.IH" [OF True st] obtain n s'
      where n: "iterations n ?s1 = Some (Inr s')" and c: "\<not> loop_cond s'"
        and f: "for_loop ?s1 = Inr s'"
      by blast
    have "iterations (Suc n) s = Some (Inr s')"
      using True st n by simp
    moreover have "for_loop s = Inr s'"
      using for_loop_step [OF True st] f by simp
    ultimately show ?thesis
      using c by blast
  next
    case False
    have "iterations 0 s = Some (Inr s)" by simp
    with False for_loop_exit [OF False] show ?thesis by blast
  qed
qed

text \<open>The accumulator decides neither how long the loop runs nor what the caller gets.\<close>

lemma for_loop_vec_irrelevant:
  "function_exit (for_loop (s\<lparr>vec := v\<rparr>)) = function_exit (for_loop s)"
proof (induction s arbitrary: v rule: for_loop.induct)
  case (1 s)
  have c: "loop_cond (s\<lparr>vec := v\<rparr>) = loop_cond s"
    by (simp add: loop_cond_def)
  show ?case
  proof (cases "loop_cond s")
    case True
    let ?s1 = "s\<lparr>i := i s + 1, vec := mm256_add_epi32 (vec s) (mm256_set1_epi32 1),
      adds := Suc (adds s)\<rparr>"
    let ?v1 = "mm256_add_epi32 v (mm256_set1_epi32 1)"
    from True have st: "loop_incr (loop_body s) = Inr ?s1"
      by (rule loop_step)
    from True c have cv: "loop_cond (s\<lparr>vec := v\<rparr>)" by simp
    then have "loop_incr (loop_body (s\<lparr>vec := v\<rparr>)) = Inr (?s1\<lparr>vec := ?v1\<rparr>)"
      by (simp add: loop_step)
    then have "for_loop (s\<lparr>vec := v\<rparr>) = for_loop (?s1\<lparr>vec := ?v1\<rparr>)"
      using cv by (rule for_loop_step [rotated])
    moreover have "for_loop s = for_loop ?s1"
      using True st by (rule for_loop_step)
    ultimately show ?thesis
      using "1.IH" [OF True st, of ?v1] by simp
  next
    case False
    with c show ?thesis
      by (simp add: for_loop_exit function_exit_def)
  qed
qed

section \<open>The properties of the specification\<close>

text \<open>
  C1: after \<^verbatim>\<open>PerformHeavyLoad\<close> has run to completion, each of the 8 lanes of the
  accumulator holds \<open>(1 + 1000000000) mod 2 ^ 32\<close>, which is \<open>1000000001\<close>. The
  accumulator is read at the closing brace of the function, where it is still in scope.
\<close>

theorem PerformHeavyLoad_final_lanes:
  "\<exists>s. PerformHeavyLoad_locals w = Inr s \<and>
     map unat (lanes (vec s)) = replicate 8 ((1 + 1000000000) mod 2 ^ 32) \<and>
     map unat (lanes (vec s)) = replicate 8 1000000001"
proof -
  let ?f = "\<lparr>i = 1000000000, vec = mm256_set1_epi32 1000000001, adds = 1000000000,
    world = w\<rparr>"
  have "map unat (lanes (vec ?f)) = replicate 8 ((1 + 1000000000) mod 2 ^ 32)"
    and "map unat (lanes (vec ?f)) = replicate 8 1000000001"
    by (simp_all add: lanes_set1)
  then show ?thesis
    by (simp add: PerformHeavyLoad_locals_def for_loop_entry)
qed

text \<open>
  C2: \<^verbatim>\<open>PerformHeavyLoad\<close> performs exactly 1,000,000,000 vector additions on the
  accumulator. The instrumentation counter \<open>adds\<close> reads 1,000,000,000 at the end, and
  the final accumulator is the initial one with \<^verbatim>\<open>_mm256_add_epi32(vec, _mm256_set1_epi32(1))\<close>
  applied that many times; the state the function ends in is the state after
  1,000,000,000 iterations of the loop; and there is no iteration after that one.
\<close>

theorem PerformHeavyLoad_add_count:
  "\<exists>s. PerformHeavyLoad_locals w = Inr s \<and> adds s = 1000000000 \<and>
     vec s = ((\<lambda>v. mm256_add_epi32 v (mm256_set1_epi32 1)) ^^ adds s) (vec (loop_entry w)) \<and>
     iterations 1000000000 (loop_entry w) = Some (Inr s) \<and>
     iterations (Suc 1000000000) (loop_entry w) = None"
proof -
  let ?f = "\<lparr>i = 1000000000, vec = mm256_set1_epi32 1000000001, adds = 1000000000,
    world = w\<rparr>"
  have "iterations (Suc 1000000000) (loop_entry w) = iterations (Suc 0) ?f"
    using iterations_final by (rule iterations_Suc_end)
  also have "\<dots> = None"
    using not_loop_cond_final [of "mm256_set1_epi32 1000000001" 1000000000 w] by simp
  finally have none: "iterations (Suc 1000000000) (loop_entry w) = None" .
  have ret: "PerformHeavyLoad_locals w = Inr ?f"
    by (simp only: PerformHeavyLoad_locals_def for_loop_entry)
  have cnt: "adds ?f = 1000000000"
    by simp
  have acc: "vec ?f =
    ((\<lambda>v. mm256_add_epi32 v (mm256_set1_epi32 1)) ^^ adds ?f) (vec (loop_entry w))"
    using funpow_add_one_entry by (simp add: loop_entry_def)
  have its: "iterations 1000000000 (loop_entry w) = Some (Inr ?f)"
    by (rule iterations_final)
  show ?thesis
    by (rule exI [of _ ?f]) (intro conjI ret cnt acc its none)
qed

text \<open>
  C3: the addition that the loop body performs in each iteration is modular arithmetic on
  each 32-bit lane: from any state \<open>s\<close>, a lane of the accumulator holding \<open>v\<close>
  holds \<open>(v + 1) mod 2 ^ 32\<close> after the body. Overflow wraps around silently: when
  every lane holds \<open>2 ^ 32 - 1\<close>, every lane holds \<open>0\<close> after the body, not the
  saturated \<open>2 ^ 32 - 1\<close>, and the body has no error result. The same holds of the
  intrinsic applied to any vector \<open>a\<close>.
\<close>

theorem loop_body_add_wraps:
  "map unat (lanes (vec (loop_body s))) = map (\<lambda>v. (unat v + 1) mod 2 ^ 32) (lanes (vec s)) \<and>
   lanes (vec (loop_body (s\<lparr>vec := mm256_set1_epi32 4294967295\<rparr>))) = replicate 8 0 \<and>
   map unat (lanes (mm256_add_epi32 a (mm256_set1_epi32 1))) =
     map (\<lambda>v. (unat v + 1) mod 2 ^ 32) (lanes a)"
proof -
  have u: "unat (v + 1) = (unat v + 1) mod 2 ^ 32" for v :: "32 word"
    by (simp add: unat_word_ariths)
  have "map unat (lanes (mm256_add_epi32 a (mm256_set1_epi32 1))) =
     map (\<lambda>v. (unat v + 1) mod 2 ^ 32) (lanes a)" for a
    using u by (simp add: lanes_def mm256_add_epi32_def mm256_set1_epi32_def)
  moreover have "lanes (vec (loop_body (s\<lparr>vec := mm256_set1_epi32 4294967295\<rparr>))) =
     replicate 8 0"
    by (simp add: loop_body_def add_set1_set1 lanes_set1)
  ultimately show ?thesis
    by (simp add: loop_body_def)
qed

text \<open>
  C4: a call of \<^verbatim>\<open>PerformHeavyLoad\<close> terminates. The loop is a total function (its
  termination is proved where \<open>for_loop\<close> is defined); here, for every call, some
  finite number \<open>n\<close> of iterations leads to a state in which the loop condition is
  false, and the call returns from that state.
\<close>

theorem PerformHeavyLoad_terminates:
  "\<exists>n s. iterations n (loop_entry w) = Some (Inr s) \<and> \<not> loop_cond s \<and>
     PerformHeavyLoad w = Inr ((), world s)"
proof -
  from for_loop_total [of "loop_entry w"] obtain n s
    where "iterations n (loop_entry w) = Some (Inr s)" and "\<not> loop_cond s"
      and "for_loop (loop_entry w) = Inr s"
    by blast
  then show ?thesis
    by (auto simp: PerformHeavyLoad_def PerformHeavyLoad_locals_def function_exit_def)
qed

text \<open>
  C5: before the loop begins, the accumulator is a vector of 8 lanes of 32 bits, every
  lane set to 1. The loop of \<^verbatim>\<open>PerformHeavyLoad\<close> starts from that state.
\<close>

theorem loop_entry_lanes:
  "PerformHeavyLoad_locals w = for_loop (loop_entry w) \<and>
   lanes (vec (loop_entry w)) = replicate 8 1 \<and>
   length (lanes (vec (loop_entry w))) = 8"
  by (simp add: PerformHeavyLoad_locals_def loop_entry_def lanes_set1)

text \<open>
  C6: \<^verbatim>\<open>PerformHeavyLoad\<close> takes no argument and returns no value: in the model its
  only argument is the world it runs in, and the value it returns has type \<open>unit\<close>. The
  computed accumulator is not delivered to the caller: whatever value \<open>v\<close> the
  accumulator is given, at the loop's entry or in any state \<open>s\<close> of the loop, the caller
  gets the same result.
\<close>

theorem accumulator_never_delivered:
  "function_exit (for_loop ((loop_entry w)\<lparr>vec := v\<rparr>)) = PerformHeavyLoad w \<and>
   function_exit (for_loop (s\<lparr>vec := v\<rparr>)) = function_exit (for_loop s)"
  by (simp add: for_loop_vec_irrelevant PerformHeavyLoad_def PerformHeavyLoad_locals_def)

text \<open>
  C7: \<^verbatim>\<open>PerformHeavyLoad\<close> never fails: every call ends in the success case
  \<open>Inr\<close>. The one error of the model, signed overflow of \<^verbatim>\<open>i++\<close>, is out of the
  loop's reach from every state \<open>s\<close> of the locals, not only from the entry state.
\<close>

theorem PerformHeavyLoad_never_fails:
  "(\<exists>r. PerformHeavyLoad w = Inr r) \<and> (\<exists>s'. for_loop s = Inr s')"
proof
  show "\<exists>r. PerformHeavyLoad w = Inr r"
    by (simp add: PerformHeavyLoad_def PerformHeavyLoad_locals_def for_loop_entry
        function_exit_def)
  show "\<exists>s'. for_loop s = Inr s'"
    using for_loop_total [of s] by blast
qed

text \<open>
  C8: \<^verbatim>\<open>PerformHeavyLoad\<close> leaves everything outside its two locals unchanged: for any
  world \<open>w\<close>, the world after the call is \<open>w\<close>.
\<close>

theorem PerformHeavyLoad_frame: "PerformHeavyLoad w = Inr ((), w)"
  by (simp add: PerformHeavyLoad_def PerformHeavyLoad_locals_def for_loop_entry
      function_exit_def)

text \<open>
  C9: the loop invariant. For every \<open>k\<close> from 0 to 1,000,000,000 the loop completes
  \<open>k\<close> iterations, and after them all 8 lanes of the accumulator hold the same value,
  \<open>(k + 1) mod 2 ^ 32\<close>.
\<close>

theorem loop_invariant_lanes:
  "k \<le> 1000000000 \<Longrightarrow>
   \<exists>s. iterations k (loop_entry w) = Some (Inr s) \<and>
     map unat (lanes (vec s)) = replicate 8 ((k + 1) mod 2 ^ 32)"
  by (simp add: iterations_entry lanes_set1 unat_of_nat_small del: of_nat_Suc)

theorem loop_invariant_lanes_witness:
  "(2::nat) \<le> 1000000000 \<and>
   (\<exists>s. iterations 2 (loop_entry ()) = Some (Inr s) \<and>
     map unat (lanes (vec s)) = replicate 8 ((2 + 1) mod 2 ^ 32))"
  using loop_invariant_lanes [of 2 "()"] by simp

text \<open>
  C10: no overflow happens during the execution. Whenever the loop has completed \<open>k\<close>
  iterations, whatever \<open>k\<close> is: \<open>k\<close> is at most 1,000,000,000, no iteration has
  ended in the error \<open>Signed_overflow\<close>, every lane holds the sum \<open>1 + k\<close> itself,
  with no reduction modulo \<open>2 ^ 32\<close> (the sum is at most 1,000,000,001, below
  \<open>2 ^ 32\<close>), and the signed counter \<open>i\<close> holds \<open>k\<close> itself, below \<open>2 ^ 31\<close>.
  The maximum 1,000,000,001 is reached, after the last iteration.
\<close>

theorem no_overflow_exercised:
  assumes "iterations k (loop_entry w) = Some r"
  shows "k \<le> 1000000000 \<and>
    (\<exists>s. r = Inr s \<and>
       map unat (lanes (vec s)) = replicate 8 (1 + k) \<and> 1 + k \<le> 1000000001 \<and>
       1 + k < 2 ^ 32 \<and>
       sint (i s) = int k \<and> int k \<le> 1000000000 \<and> int k < 2 ^ 31) \<and>
    (\<exists>s. iterations 1000000000 (loop_entry w) = Some (Inr s) \<and>
       map unat (lanes (vec s)) = replicate 8 1000000001)"
proof -
  from assms have k: "k \<le> 1000000000"
    by (rule iterations_bound)
  with assms have r: "r = Inr \<lparr>i = of_nat k, vec = mm256_set1_epi32 (of_nat (Suc k)),
    adds = k, world = w\<rparr>"
    by (simp add: iterations_entry)
  have "map unat (lanes (vec \<lparr>i = 1000000000, vec = mm256_set1_epi32 1000000001,
      adds = 1000000000, world = w\<rparr>)) = replicate 8 1000000001"
    by (simp add: lanes_set1)
  then have "\<exists>s. iterations 1000000000 (loop_entry w) = Some (Inr s) \<and>
       map unat (lanes (vec s)) = replicate 8 1000000001"
    by (simp add: iterations_final)
  then show ?thesis
    using k r
    by (simp add: lanes_set1 unat_of_nat_small sint_of_nat_small del: of_nat_Suc)
qed

theorem no_overflow_exercised_witness:
  "iterations 2 (loop_entry ()) =
     Some (Inr \<lparr>i = 2, vec = M256i 3 3 3 3 3 3 3 3, adds = 2, world = ()\<rparr>) \<and>
   (2::nat) \<le> 1000000000 \<and>
   map unat (lanes (M256i 3 3 3 3 3 3 3 3)) = replicate 8 (1 + 2) \<and>
   (1 + 2 :: nat) < 2 ^ 32 \<and> sint (2 :: 32 word) = int 2 \<and> int 2 < 2 ^ 31"
proof -
  have two: "iterations 2 = iterations (Suc (Suc 0))"
    by (simp only: numeral_2_eq_2)
  have h: "iterations 2 (loop_entry ()) =
     Some (Inr \<lparr>i = 2, vec = M256i 3 3 3 3 3 3 3 3, adds = 2, world = ()\<rparr>)"
    unfolding two
    by (simp add: loop_entry_def loop_cond_def loop_body_def loop_incr_def
        INT_MAX_def word_sless_alt mm256_add_epi32_def mm256_set1_epi32_def)
  show ?thesis
    using h no_overflow_exercised [OF h] by simp
qed

end
